theory Spec2Isabelle
  imports Complex_Main "HOL-Library.Char_ord" "HOL-Library.List_Lexorder"
begin

section \<open>Deterministic liquidity engine (portfolio\_engine.py)\<close>

text \<open>
  Python floats are modelled as \<^typ>\<open>real\<close>: every statement below is about the exact
  arithmetic the code writes down, not about rounding. A dictionary field read with
  \<^verbatim>\<open>d.get(key, default)\<close> is an \<^typ>\<open>'a option\<close> field (\<open>None\<close>: the key is absent).
\<close>

subsection \<open>Behavior parameter mapper\<close>

record macro =
  vix :: "real option"
  credit_spreads_baa :: "real option"
  credit_spreads_hy :: "real option"
  us10y_yield :: "real option"

record behavior =
  deposit_runoff_30d_pct :: real
  notroll_prob_30d :: real
  notroll_prob_90d :: real
  margin_factor :: real

text \<open>\<^verbatim>\<open>float(macro.get(key, default))\<close>\<close>

definition get_float :: "real option \<Rightarrow> real \<Rightarrow> real" where
  "get_float v dflt = (case v of None \<Rightarrow> dflt | Some x \<Rightarrow> x)"

text \<open>\<^verbatim>\<open>{"mild": 0.6, "base": 1.0, "severe": 1.6}.get(severity, 1.0)\<close>\<close>

definition sev_mult :: "string \<Rightarrow> real" where
  "sev_mult severity =
     (case map_of [(''mild'', 0.6), (''base'', 1.0), (''severe'', 1.6)] severity of
        None \<Rightarrow> 1.0
      | Some m \<Rightarrow> m)"

definition scenario_to_behavior_params :: "macro \<Rightarrow> string \<Rightarrow> behavior" where
  "scenario_to_behavior_params m severity =
     (let vx = get_float (vix m) 18;
          baa = get_float (credit_spreads_baa m) 180;
          hy = get_float (credit_spreads_hy m) 400;
          teny = get_float (us10y_yield m) 4.2;
          sm = sev_mult severity;
          base_runoff = 0.5 + 0.01 * (vx - 18) + 0.002 * (baa - 180);
          dep_runoff_30d = max 0.3 (min 8.0 (base_runoff * sm));
          base_notroll_30d = 5 + 0.6 * (vx - 18) + 0.05 * (hy - 400);
          notroll_30d = max 5 (min 60 (base_notroll_30d * sm)) / 100.0;
          notroll_90d = min 90 ((notroll_30d * 100.0) * 1.5) / 100.0;
          mf = max 0.5 (min 3.0 (0.8 + 0.04 * (vx - 18) + 0.1 * (teny - 4.2)));
          mf' = mf * sm
      in \<lparr> deposit_runoff_30d_pct = dep_runoff_30d / 100.0,
           notroll_prob_30d = notroll_30d,
           notroll_prob_90d = notroll_90d,
           margin_factor = mf' \<rparr>)"

text \<open>
  The formula as the specification words it: the percentage is clamped to \<open>[lo, hi]\<close>
  first and the severity multiplier is applied to the clamped value.
\<close>

definition clamp :: "real \<Rightarrow> real \<Rightarrow> real \<Rightarrow> real" where
  "clamp x lo hi = max lo (min hi x)"

definition spec_deposit_runoff_30d_pct :: "macro \<Rightarrow> string \<Rightarrow> real" where
  "spec_deposit_runoff_30d_pct m severity =
     clamp (0.5 + 0.01 * (get_float (vix m) 18 - 18)
                + 0.002 * (get_float (credit_spreads_baa m) 180 - 180)) 0.3 8.0
       * sev_mult severity / 100"

subsection \<open>Dates, cashflows, instruments\<close>

text \<open>
  A parsed \<^verbatim>\<open>datetime\<close> is its number of microseconds on the (naive) time line, so
  that \<^verbatim>\<open>d + timedelta(days=n)\<close> adds \<open>n * day_us\<close> and \<^verbatim>\<open>d.date()\<close> is the
  day number \<open>d div day_us\<close>.
\<close>

type_synonym datetime = int

definition day_us :: int where
  "day_us = 86400000000"

definition date_of :: "datetime \<Rightarrow> int" where
  "date_of d = d div day_us"

definition plus_days :: "datetime \<Rightarrow> int \<Rightarrow> datetime" where
  "plus_days d n = d + n * day_us"

text \<open>
  The date of a cashflow or of an impact is an ISO string. It is kept as it is written,
  \<open>iso_text\<close>, together with the datetime that \<^verbatim>\<open>datetime.fromisoformat\<close> parses it
  to, \<open>iso_time\<close>: the impact applier sorts and copies the strings it is given, while its
  future filter and the daily roll-up use the parsed value. Strings are compared as
  Python compares them, code point by code point.
\<close>

record iso_date =
  iso_text :: string
  iso_time :: datetime

record cashflow =
  cf_instrument_id :: string
  cf_type :: string
  cf_currency :: string
  cf_date :: iso_date
  cf_amount :: real

record instrument =
  inst_id :: string
  inst_type :: "string option"
  hql_level :: "string option"
  notional :: "real option"
  currency :: "string option"

record portfolio =
  reserve :: "real option"
  liquidity_profile :: "instrument list"

text \<open>
  The value under an impact's key \<^verbatim>\<open>amount\<close>: \<open>Number x\<close> is a number, or a numeric
  string that \<^verbatim>\<open>float\<close> converts to \<open>x\<close>; \<open>Unparsable\<close> is a non-empty string that
  \<^verbatim>\<open>float\<close> rejects, such as \<^verbatim>\<open>'n/a'\<close>, on which it raises \<^verbatim>\<open>ValueError\<close>.
\<close>

datatype amount_val = Number real | Unparsable

datatype error = ValueError

text \<open>
  An impact as the scenario proposer sends it. The engine reads the keys \<^verbatim>\<open>id\<close>,
  \<^verbatim>\<open>action\<close>, \<^verbatim>\<open>date\<close>, \<^verbatim>\<open>amount\<close> and \<^verbatim>\<open>new_maturity\<close>; the key
  \<^verbatim>\<open>instrument_id\<close> of the specification's data model is carried by the record but no
  function reads it.
\<close>

record impact =
  imp_id :: "string option"
  imp_instrument_id :: "string option"
  imp_action :: "string option"
  imp_date :: "iso_date option"
  imp_amount :: "amount_val option"
  imp_new_maturity :: "iso_date option"

definition ASSET_TYPES :: "string list" where
  "ASSET_TYPES = [''bond'', ''mortgage_backed_security'', ''loan'']"

definition LIAB_TYPES :: "string list" where
  "LIAB_TYPES =
     [''certificate_of_deposit'', ''commercial_paper'', ''repo'', ''interbank_borrowing'',
      ''fed_funds'', ''fed_discount_window'', ''corporate_deposits'', ''retail_deposits'',
      ''sme_deposits'']"

text \<open>
  \<^verbatim>\<open>str.lower\<close> and \<^verbatim>\<open>str.strip\<close> on strings of code points below 256. The upper-case
  letters there are \<open>A\<close> to \<open>Z\<close> and U+00C0 to U+00DE without the multiplication sign
  U+00D7; each has bit 5 clear and its lower-case letter is 32 code points above, which
  is the same code point with bit 5 set. The white space that \<^verbatim>\<open>strip\<close> removes is
  what \<^verbatim>\<open>str.isspace\<close> accepts: U+0009 to U+000D, U+001C to U+0020, U+0085 and U+00A0.
\<close>

definition is_upper :: "char \<Rightarrow> bool" where
  "is_upper c \<longleftrightarrow>
     (let n = (of_char c :: nat)
      in (65 \<le> n \<and> n \<le> 90) \<or> (192 \<le> n \<and> n \<le> 222 \<and> n \<noteq> 215))"

definition lower_char :: "char \<Rightarrow> char" where
  "lower_char c =
     (if is_upper c
      then (case c of Char b0 b1 b2 b3 b4 b5 b6 b7 \<Rightarrow> Char b0 b1 b2 b3 b4 True b6 b7)
      else c)"

definition lower :: "string \<Rightarrow> string" where
  "lower s = map lower_char s"

definition is_space :: "char \<Rightarrow> bool" where
  "is_space c \<longleftrightarrow>
     c \<in> set [CHR 0x09, CHR 0x0A, CHR 0x0B, CHR 0x0C, CHR 0x0D,
              CHR 0x1C, CHR 0x1D, CHR 0x1E, CHR 0x1F, CHR 0x20, CHR 0x85, CHR 0xA0]"

definition strip :: "string \<Rightarrow> string" where
  "strip s = rev (dropWhile is_space (rev (dropWhile is_space s)))"

subsection \<open>Instrument impact applier\<close>

text \<open>\<^verbatim>\<open>inst_map = {i["id"]: i for i in portfolio.get("liquidity_profile", [])}\<close>\<close>

definition inst_map :: "portfolio \<Rightarrow> (string \<rightharpoonup> instrument)" where
  "inst_map p = fold (\<lambda>i m. m(inst_id i \<mapsto> i)) (liquidity_profile p) Map.empty"

text \<open>
  \<^verbatim>\<open>futures.get(inst_id, [])\<close> after the index is built and every list is sorted:
  the instrument's cashflows whose parsed date is strictly after the anchor, in list
  order, then sorted by \<^verbatim>\<open>x["date"]\<close>, the date as it is written (a stable sort, as
  Python's).
\<close>

definition futures :: "cashflow list \<Rightarrow> datetime \<Rightarrow> string \<Rightarrow> cashflow list" where
  "futures cashflows asof k =
     sort_key (\<lambda>cf. iso_text (cf_date cf))
       (filter (\<lambda>cf. iso_time (cf_date cf) > asof \<and> cf_instrument_id cf = k) cashflows)"

definition first_future_cf :: "cashflow list \<Rightarrow> datetime \<Rightarrow> string \<Rightarrow> cashflow option" where
  "first_future_cf cashflows asof k =
     (case futures cashflows asof k of [] \<Rightarrow> None | x # _ \<Rightarrow> Some x)"

definition add_cf ::
  "string \<Rightarrow> string \<Rightarrow> string \<Rightarrow> real \<Rightarrow> iso_date \<Rightarrow> cashflow list \<Rightarrow> cashflow list" where
  "add_cf k typ ccy amount date new_cfs =
     new_cfs @ [\<lparr> cf_instrument_id = k, cf_type = typ, cf_currency = ccy,
                  cf_date = date, cf_amount = amount \<rparr>]"

definition action_in :: "string option \<Rightarrow> string list \<Rightarrow> bool" where
  "action_in a xs = (case a of None \<Rightarrow> False | Some s \<Rightarrow> s \<in> set xs)"

text \<open>
  The truth value of a date field (\<^verbatim>\<open>not date_s\<close>, \<^verbatim>\<open>if old_date:\<close>,
  \<^verbatim>\<open>and new_mat\<close>): an absent date and the empty string count as no date.
\<close>

definition truthy :: "iso_date option \<Rightarrow> iso_date option" where
  "truthy d = (case d of None \<Rightarrow> None | Some x \<Rightarrow> if iso_text x = [] then None else Some x)"

text \<open>
  \<^verbatim>\<open>float(imp.get("amount", 0) or 0)\<close>: an absent amount is \<open>0\<close>, a string that is
  not a number raises.
\<close>

definition impact_amt :: "impact \<Rightarrow> error + real" where
  "impact_amt imp =
     (case imp_amount imp of
        None \<Rightarrow> Inr 0
      | Some (Number x) \<Rightarrow> Inr x
      | Some Unparsable \<Rightarrow> Inl ValueError)"

text \<open>\<^verbatim>\<open>inst.get("currency", "USD")\<close> and \<^verbatim>\<open>inst.get("type", "other").lower()\<close>\<close>

definition inst_ccy :: "instrument \<Rightarrow> string" where
  "inst_ccy inst = (case currency inst of None \<Rightarrow> ''USD'' | Some c \<Rightarrow> c)"

definition inst_typ :: "instrument \<Rightarrow> string" where
  "inst_typ inst = lower (case inst_type inst of None \<Rightarrow> ''other'' | Some t \<Rightarrow> t)"

text \<open>
  One iteration of the loop over the impacts: the list \<^verbatim>\<open>new_cfs\<close> before and after,
  or the error that the conversion of the amount raises. The amount is converted before
  the instrument is looked up and before the guard that skips an impact.
\<close>

definition impact_step ::
  "(string \<rightharpoonup> instrument) \<Rightarrow> cashflow list \<Rightarrow> datetime \<Rightarrow> impact \<Rightarrow> cashflow list
     \<Rightarrow> error + cashflow list" where
  "impact_step imap cashflows asof imp new_cfs =
     (let action = imp_action imp
      in case impact_amt imp of
           Inl e \<Rightarrow> Inl e
         | Inr amt \<Rightarrow>
            Inr (let new_mat = truthy (imp_new_maturity imp)
                 in case imp_id imp of
                      None \<Rightarrow> new_cfs
                    | Some k \<Rightarrow>
                     (case imap k of
                        None \<Rightarrow> new_cfs
                      | Some inst \<Rightarrow>
                       (case truthy (imp_date imp) of
                          None \<Rightarrow> new_cfs
                        | Some date_s \<Rightarrow>
                           if amt \<le> 0 then new_cfs
                           else
                             let ccy = inst_ccy inst;
                                 typ = inst_typ inst;
                                 old_cf = first_future_cf cashflows asof k;
                                 old_amt = (case old_cf of None \<Rightarrow> 0 | Some c \<Rightarrow> cf_amount c);
                                 old_date = truthy (map_option cf_date old_cf);
                                 add = add_cf k typ ccy
                             in if action = Some ''margin_call''
                                    \<or> action = Some ''exercise_option''
                                then add (- amt) date_s new_cfs
                                else if typ \<in> set LIAB_TYPES then
                                  (if action_in action
                                        [''prepay'', ''not_rollover'', ''terminate''] then
                                     (let cfs1 = add (- amt) date_s new_cfs
                                      in case old_date of
                                           None \<Rightarrow> cfs1
                                         | Some od \<Rightarrow> add amt od cfs1)
                                   else
                                     (if action = Some ''extend_maturity'' then
                                        (case new_mat of
                                           None \<Rightarrow> new_cfs
                                         | Some nm \<Rightarrow>
                                            (let cfs1 =
                                               (case old_date of
                                                  None \<Rightarrow> new_cfs
                                                | Some od \<Rightarrow> add \<bar>old_amt\<bar> od new_cfs)
                                             in add (- \<bar>if amt \<noteq> 0 then amt else old_amt\<bar>)
                                                  nm cfs1))
                                      else new_cfs))
                                else if typ \<in> set ASSET_TYPES then
                                  (if action_in action [''prepay'', ''terminate''] then
                                     (let cfs1 = add amt date_s new_cfs
                                      in case old_date of
                                           None \<Rightarrow> cfs1
                                         | Some od \<Rightarrow> add (- amt) od cfs1)
                                   else
                                     (if action = Some ''extend_maturity'' then
                                        (case new_mat of
                                           None \<Rightarrow> new_cfs
                                         | Some nm \<Rightarrow>
                                            (let cfs1 =
                                               (case old_date of
                                                  None \<Rightarrow> new_cfs
                                                | Some od \<Rightarrow> add (- \<bar>old_amt\<bar>) od new_cfs)
                                             in add \<bar>if amt \<noteq> 0 then amt else old_amt\<bar>
                                                  nm cfs1))
                                      else new_cfs))
                                else add (- amt) date_s new_cfs))))"

text \<open>The loop: the first error ends the call.\<close>

primrec run_impacts ::
  "(impact \<Rightarrow> cashflow list \<Rightarrow> error + cashflow list) \<Rightarrow> impact list \<Rightarrow> cashflow list
     \<Rightarrow> error + cashflow list" where
  "run_impacts step [] new_cfs = Inr new_cfs"
| "run_impacts step (imp # imps) new_cfs =
     (case step imp new_cfs of
        Inl e \<Rightarrow> Inl e
      | Inr cfs1 \<Rightarrow> run_impacts step imps cfs1)"

text \<open>\<^verbatim>\<open>impacts or []\<close>: \<open>None\<close> is an absent impact list.\<close>

definition apply_instrument_impacts_to_cashflows ::
  "cashflow list \<Rightarrow> portfolio \<Rightarrow> impact list option \<Rightarrow> datetime
     \<Rightarrow> error + cashflow list" where
  "apply_instrument_impacts_to_cashflows cashflows p impacts as_of =
     run_impacts (impact_step (inst_map p) cashflows as_of)
       (case impacts of None \<Rightarrow> [] | Some xs \<Rightarrow> xs) cashflows"

subsection \<open>Daily roll-up\<close>

text \<open>
  A daily series maps a calendar day to its bucket, the two-key dictionary
  \<^verbatim>\<open>{'in': .., 'out': ..}\<close> that the engine's \<^verbatim>\<open>defaultdict\<close> factory creates.
  A bucket always holds both keys, so reading one of them with \<^verbatim>\<open>io.get('in', 0.0)\<close>
  is reading the field; the default only matters for a day without a bucket.
\<close>

record io =
  io_in :: real
  io_out :: real

type_synonym series = "int \<rightharpoonup> io"

definition zero_io :: io where
  "zero_io = \<lparr> io_in = 0, io_out = 0 \<rparr>"

text \<open>Reading \<^verbatim>\<open>daily[k]\<close> of a \<^verbatim>\<open>defaultdict\<close>: a missing key reads as the zero bucket.\<close>

definition bucket :: "series \<Rightarrow> int \<Rightarrow> io" where
  "bucket daily k = (case daily k of None \<Rightarrow> zero_io | Some e \<Rightarrow> e)"

definition roll_step :: "datetime \<Rightarrow> datetime \<Rightarrow> cashflow \<Rightarrow> series \<Rightarrow> series" where
  "roll_step asof end cf daily =
     (let d = iso_time (cf_date cf)
      in if asof < d \<and> d \<le> end then
           (let amt = cf_amount cf; k = date_of d; e = bucket daily k
            in if amt \<ge> 0 then daily(k \<mapsto> e\<lparr>io_in := io_in e + amt\<rparr>)
               else daily(k \<mapsto> e\<lparr>io_out := io_out e + - amt\<rparr>))
         else daily)"

definition roll_daily_contractual_flows_detail ::
  "cashflow list \<Rightarrow> datetime \<Rightarrow> int \<Rightarrow> series" where
  "roll_daily_contractual_flows_detail cashflows as_of horizon_days =
     fold (roll_step as_of (plus_days as_of horizon_days)) cashflows Map.empty"

text \<open>The net position of a bucket: inflow minus outflow.\<close>

definition net_position :: "io \<Rightarrow> real" where
  "net_position e = io_in e - io_out e"

subsection \<open>Series combiner\<close>

text \<open>
  \<^verbatim>\<open>for d, io in s.items(): out[d]['in'] += io.get('in', 0.0); out[d]['out'] += ...\<close>
  Each date of \<open>s\<close> is visited once and only its own bucket of \<open>out\<close> is touched (and
  created, when \<open>out\<close> has none), so one pass over \<open>s\<close> is the pointwise update below.
\<close>

definition combine_step :: "series \<Rightarrow> series \<Rightarrow> series" where
  "combine_step s out =
     (\<lambda>d. case s d of
            None \<Rightarrow> out d
          | Some e \<Rightarrow> Some \<lparr> io_in = io_in (bucket out d) + io_in e,
                             io_out = io_out (bucket out d) + io_out e \<rparr>)"

definition combine_daily_detail :: "series list \<Rightarrow> series" where
  "combine_daily_detail series = fold combine_step series Map.empty"

subsection \<open>KPI calculator\<close>

record kpis =
  hqla :: real
  worst_30d_outflow :: real
  lcr :: real
  survival_days :: int
  peak_cumulative_outflow :: real

text \<open>\<^verbatim>\<open>detail.get(d, {}).get('in', 0.0)\<close> and the same for \<^verbatim>\<open>'out'\<close>.\<close>

definition get_in :: "series \<Rightarrow> int \<Rightarrow> real" where
  "get_in detail d = (case detail d of None \<Rightarrow> 0 | Some e \<Rightarrow> io_in e)"

definition get_out :: "series \<Rightarrow> int \<Rightarrow> real" where
  "get_out detail d = (case detail d of None \<Rightarrow> 0 | Some e \<Rightarrow> io_out e)"

text \<open>\<^verbatim>\<open>[(asof + timedelta(days=i)).date() for i in range(1, horizon_days + 1)]\<close>\<close>

definition horizon_dates :: "datetime \<Rightarrow> int \<Rightarrow> int list" where
  "horizon_dates asof horizon_days = map (\<lambda>i. date_of (plus_days asof i)) [1..horizon_days]"

text \<open>The body of the window loop: the net outflow of the window that starts at index \<open>i\<close>.\<close>

definition window_net :: "real list \<Rightarrow> real list \<Rightarrow> nat \<Rightarrow> real" where
  "window_net inflow outflow i =
     (let win_in = sum_list (take 30 (drop i inflow));
          win_out = sum_list (take 30 (drop i outflow));
          capped_in = min win_in (0.75 * win_out)
      in max 0 (win_out - capped_in))"

text \<open>
  \<^verbatim>\<open>for i in range(0, len(days) - 29)\<close>: the range is empty when \<open>len(days) \<le> 29\<close>, as
  \<open>[0..<n - 29]\<close> is on natural numbers.
\<close>

definition worst_30 :: "real list \<Rightarrow> real list \<Rightarrow> real" where
  "worst_30 inflow outflow =
     fold (\<lambda>i w. max w (window_net inflow outflow i)) [0..<length inflow - 29] 1"

text \<open>The survival scan: the state is \<open>(cum, peak, survival)\<close>.\<close>

definition scan_step ::
  "real list \<Rightarrow> real list \<Rightarrow> real \<Rightarrow> nat \<Rightarrow> real \<times> real \<times> int option
     \<Rightarrow> real \<times> real \<times> int option" where
  "scan_step inflow outflow hqla_base idx st =
     (case st of (cum, peak, survival) \<Rightarrow>
        (let cum' = cum + (outflow ! idx - inflow ! idx);
             peak' = max peak cum';
             survival' = (if survival = None \<and> cum' > hqla_base then Some (int idx + 1)
                          else survival)
         in (cum', peak', survival')))"

definition compute_kpis_from_daily_detail :: "series \<Rightarrow> datetime \<Rightarrow> real \<Rightarrow> int \<Rightarrow> kpis" where
  "compute_kpis_from_daily_detail detail as_of hqla_base horizon_days =
     (let days = horizon_dates as_of horizon_days;
          inflow = map (get_in detail) days;
          outflow = map (get_out detail) days;
          worst = worst_30 inflow outflow;
          lcr_v = hqla_base / worst
      in case fold (scan_step inflow outflow hqla_base) [0..<length days] (0, 0, None) of
           (cum, peak, survival) \<Rightarrow>
             \<lparr> hqla = hqla_base,
               worst_30d_outflow = worst,
               lcr = lcr_v,
               survival_days = (case survival of None \<Rightarrow> horizon_days | Some s \<Rightarrow> s),
               peak_cumulative_outflow = peak \<rparr>)"

text \<open>
  The KPIs as the specification words them, over the calendar days \<open>1..horizon\<close> after the
  anchor: the capped net outflow of the 30-day window starting on day \<open>s\<close>, the worst
  window floored at \<open>1\<close>, and the cumulative net outflow up to day \<open>k\<close>.
\<close>

definition day_after :: "datetime \<Rightarrow> int \<Rightarrow> int" where
  "day_after asof k = date_of (plus_days asof k)"

definition spec_window_net :: "series \<Rightarrow> datetime \<Rightarrow> int \<Rightarrow> real" where
  "spec_window_net detail asof s =
     (let outflow_sum = (\<Sum>k = s..s + 29. get_out detail (day_after asof k));
          inflow_sum = (\<Sum>k = s..s + 29. get_in detail (day_after asof k))
      in max 0 (outflow_sum - min inflow_sum (0.75 * outflow_sum)))"

definition spec_worst_30d_outflow :: "series \<Rightarrow> datetime \<Rightarrow> int \<Rightarrow> real" where
  "spec_worst_30d_outflow detail asof horizon_days =
     max 1 (Max (spec_window_net detail asof ` {1..horizon_days - 29}))"

definition cum_net_outflow :: "series \<Rightarrow> datetime \<Rightarrow> int \<Rightarrow> real" where
  "cum_net_outflow detail asof k =
     (\<Sum>j = 1..k. get_out detail (day_after asof j) - get_in detail (day_after asof j))"

subsection \<open>HQLA eligibility calculator\<close>

text \<open>
  One iteration of the loop over \<^verbatim>\<open>liquidity_profile\<close>; the state is
  \<open>(l1, l2a, l2b)\<close>.
\<close>

definition hqla_step :: "instrument \<Rightarrow> real \<times> real \<times> real \<Rightarrow> real \<times> real \<times> real" where
  "hqla_step inst acc =
     (case acc of (l1, l2a, l2b) \<Rightarrow>
        (let t = lower (case inst_type inst of None \<Rightarrow> [] | Some x \<Rightarrow> x);
             lvl = lower (strip (case hql_level inst of None \<Rightarrow> [] | Some x \<Rightarrow> x));
             n = (case notional inst of None \<Rightarrow> 0 | Some x \<Rightarrow> x);
             is_asset_like = (t \<in> set ASSET_TYPES);
             has_hqla_tag_not_liability = (lvl \<noteq> [] \<and> t \<notin> set LIAB_TYPES)
         in if n \<le> 0 then acc
            else if \<not> (is_asset_like \<or> has_hqla_tag_not_liability) then acc
            else if lvl = ''level 1'' then (l1 + n, l2a, l2b)
            else if lvl = ''level 2a'' then (l1, l2a + n * 0.85, l2b)
            else if lvl = ''level 2b'' then (l1, l2a, l2b + n * 0.50)
            else acc))"

definition hqla_levels :: "portfolio \<Rightarrow> real \<times> real \<times> real" where
  "hqla_levels p =
     fold hqla_step (liquidity_profile p)
       ((case reserve p of None \<Rightarrow> 0 | Some r \<Rightarrow> r), 0, 0)"

text \<open>
  The two caps, on the levels after the loop: the values of \<open>(l1, l2a, l2b)\<close> at the
  \<^verbatim>\<open>return\<close> statement.
\<close>

definition apply_caps :: "real \<times> real \<times> real \<Rightarrow> real \<times> real \<times> real" where
  "apply_caps lv =
     (case lv of (l1, l2a, l2b) \<Rightarrow>
        (let total = l1 + l2a + l2b;
             cap_2b = 0.15 * total;
             l2b1 = (if l2b > cap_2b then cap_2b else l2b);
             total1 = l1 + l2a + l2b1;
             cap_l2 = 0.40 * total1
         in if l2a + l2b1 > cap_l2 then
              (let scale = cap_l2 / (l2a + l2b1 + 1 / 10 ^ 12)
               in (l1, l2a * scale, l2b1 * scale))
            else (l1, l2a, l2b1)))"

definition compute_hqla_eligible :: "portfolio \<Rightarrow> real" where
  "compute_hqla_eligible p =
     (case hqla_levels p of (l1, l2a, l2b) \<Rightarrow>
        if l1 + l2a + l2b \<le> 0 then 0
        else (case apply_caps (l1, l2a, l2b) of (c1, c2a, c2b) \<Rightarrow> max 0 (c1 + c2a + c2b)))"

subsection \<open>Example inputs\<close>

text \<open>
  One repo, \<^verbatim>\<open>REPO1\<close>, and impacts on it. The anchor is datetime \<open>0\<close>, written
  \<^verbatim>\<open>1970-01-01\<close>; \<open>ex_day s n\<close> is the date written \<open>s\<close> that parses to midnight of
  day \<open>n\<close> after the anchor.
\<close>

definition ex_portfolio :: portfolio where
  "ex_portfolio =
     \<lparr> reserve = None,
       liquidity_profile =
         [\<lparr> inst_id = ''REPO1'', inst_type = Some ''repo'', hql_level = None,
            notional = Some 100, currency = Some ''USD'' \<rparr>] \<rparr>"

definition ex_day :: "string \<Rightarrow> int \<Rightarrow> iso_date" where
  "ex_day s n = \<lparr> iso_text = s, iso_time = n * day_us \<rparr>"

definition ex_event :: "real \<Rightarrow> iso_date \<Rightarrow> cashflow" where
  "ex_event amount date =
     \<lparr> cf_instrument_id = ''REPO1'', cf_type = ''repo'', cf_currency = ''USD'',
       cf_date = date, cf_amount = amount \<rparr>"

text \<open>The only scheduled cashflow of the repo, ten days after the anchor.\<close>

definition ex_leg :: "real \<Rightarrow> cashflow" where
  "ex_leg y = ex_event y (ex_day ''1970-01-11'' 10)"

definition ex_impact_on :: "iso_date \<Rightarrow> string \<Rightarrow> amount_val \<Rightarrow> impact" where
  "ex_impact_on date action amount =
     \<lparr> imp_id = Some ''REPO1'', imp_instrument_id = None, imp_action = Some action,
       imp_date = Some date, imp_amount = Some amount,
       imp_new_maturity = Some (ex_day ''1970-02-10'' 40) \<rparr>"

definition ex_impact :: "string \<Rightarrow> real \<Rightarrow> impact" where
  "ex_impact action amount = ex_impact_on (ex_day ''1970-01-06'' 5) action (Number amount)"



text \<open>
  Two legs of the repo on the same day, written in two ISO spellings: the later one,
  with a blank before the time, is the smaller string.
\<close>

definition ex_leg_t :: cashflow where
  "ex_leg_t =
     ex_event (- 70)
       \<lparr> iso_text = ''1970-01-11T08:00:00'', iso_time = 10 * day_us + 28800000000 \<rparr>"

definition ex_leg_blank :: cashflow where
  "ex_leg_blank =
     ex_event (- 30)
       \<lparr> iso_text = ''1970-01-11 12:00:00'', iso_time = 10 * day_us + 43200000000 \<rparr>"

text \<open>
  A reserve of 100, a Level 2A bond of notional 1000 and a Level 2B bond of notional 2000.
\<close>

definition ex_hqla_portfolio :: portfolio where
  "ex_hqla_portfolio =
     \<lparr> reserve = Some 100,
       liquidity_profile =
         [\<lparr> inst_id = ''B1'', inst_type = Some ''bond'', hql_level = Some ''Level 2A'',
            notional = Some 1000, currency = Some ''USD'' \<rparr>,
          \<lparr> inst_id = ''B2'', inst_type = Some ''bond'', hql_level = Some ''Level 2B'',
            notional = Some 2000, currency = Some ''USD'' \<rparr>] \<rparr>"

section \<open>Properties\<close>

lemma sev_mult_severe: "sev_mult ''severe'' = 1.6"
  by (simp add: sev_mult_def)

lemma sev_mult_base: "sev_mult ''base'' = 1"
  by (simp add: sev_mult_def)

lemma sev_mult_mild: "sev_mult ''mild'' = 0.6"
  by (simp add: sev_mult_def)

lemma sev_mult_cases: "sev_mult s = 0.6 \<or> sev_mult s = 1 \<or> sev_mult s = 1.6"
  by (simp add: sev_mult_def)

text \<open>
  C7. For one and the same macro input, each of the four behavior parameters computed
  under severity "severe" is at least the one computed under severity "base".
\<close>

theorem severe_ge_base:
  "deposit_runoff_30d_pct (scenario_to_behavior_params m ''base'')
     \<le> deposit_runoff_30d_pct (scenario_to_behavior_params m ''severe'')
   \<and> notroll_prob_30d (scenario_to_behavior_params m ''base'')
     \<le> notroll_prob_30d (scenario_to_behavior_params m ''severe'')
   \<and> notroll_prob_90d (scenario_to_behavior_params m ''base'')
     \<le> notroll_prob_90d (scenario_to_behavior_params m ''severe'')
   \<and> margin_factor (scenario_to_behavior_params m ''base'')
     \<le> margin_factor (scenario_to_behavior_params m ''severe'')"
proof -
  have scale: "max lo (min hi (b * 1)) \<le> max lo (min hi (b * 1.6))"
    if "0 < lo" for b lo hi :: real
    using that by (cases "0 \<le> b") (auto simp: max_def min_def)
  have pos: "x * 1 \<le> x * 1.6" if "0 \<le> x" for x :: real
    using that by simp
  show ?thesis
    unfolding scenario_to_behavior_params_def Let_def sev_mult_severe sev_mult_base
    apply (simp only: behavior.simps)
    apply (intro conjI)
       apply (rule divide_right_mono[OF scale]; simp)
      apply (rule divide_right_mono[OF scale]; simp)
     apply (rule divide_right_mono)
      apply (rule min.mono[OF order_refl])
      apply (rule mult_right_mono)
       apply (rule mult_right_mono)
        apply (rule divide_right_mono[OF scale]; simp)
       apply simp
      apply simp
     apply simp
    apply (rule pos)
    apply (rule order_trans[OF _ max.cobounded1])
    apply simp
    done
qed

subsection \<open>Lower case\<close>

text \<open>On an upper-case code point \<open>lower_char\<close> is the code point 32 above.\<close>

lemma lower_char_adds_32:
  "is_upper c \<Longrightarrow> of_char (lower_char c) = (of_char c :: nat) + 32"
proof (cases c)
  case (Char b0 b1 b2 b3 b4 b5 b6 b7)
  assume "is_upper c"
  then show ?thesis
    unfolding Char
    by (cases b0; cases b1; cases b2; cases b3; cases b4; cases b5; cases b6; cases b7)
       (simp_all add: is_upper_def lower_char_def)
qed

subsection \<open>Instrument impact applier\<close>

lemma impact_step_raises:
  "impact_amt imp = Inl e \<Longrightarrow> impact_step imap cfs asof imp acc = Inl e"
  by (simp add: impact_step_def)

lemma impact_step_append:
  "impact_step imap cfs asof imp acc
     = map_sum id (\<lambda>es. acc @ es) (impact_step imap cfs asof imp [])"
proof (cases "impact_amt imp")
  case (Inl e)
  then show ?thesis by (simp add: impact_step_raises)
next
  case (Inr a)
  then show ?thesis
    by (simp add: impact_step_def Let_def add_cf_def split: option.splits)
qed


lemma run_impacts_append:
  "run_impacts step (xs @ ys) acc
     = (case run_impacts step xs acc of Inl e \<Rightarrow> Inl e | Inr acc1 \<Rightarrow> run_impacts step ys acc1)"
  by (induction xs arbitrary: acc) (simp_all split: sum.split)

lemma apply_snoc:
  assumes "apply_instrument_impacts_to_cashflows cfs p (Some xs) asof = Inr r"
    and "impact_step (inst_map p) cfs asof imp [] = Inr es"
  shows "apply_instrument_impacts_to_cashflows cfs p (Some (xs @ [imp])) asof = Inr (r @ es)"
proof -
  have "impact_step (inst_map p) cfs asof imp r = Inr (r @ es)"
    by (subst impact_step_append) (simp add: assms(2))
  then show ?thesis
    using assms(1)
    by (simp add: apply_instrument_impacts_to_cashflows_def run_impacts_append)
qed

lemma apply_single:
  assumes "impact_step (inst_map p) cfs asof imp [] = Inr es"
  shows "apply_instrument_impacts_to_cashflows cfs p (Some [imp]) asof = Inr (cfs @ es)"
proof -
  have "apply_instrument_impacts_to_cashflows cfs p (Some []) asof = Inr cfs"
    by (simp add: apply_instrument_impacts_to_cashflows_def)
  from apply_snoc[OF this assms] show ?thesis by simp
qed




text \<open>
  The leg that an impact offsets is the first of the instrument's future cashflows in
  the order of their date strings; it is the earliest one when, on these cashflows, the
  order of the strings is the order of the dates (as it is for dates in one ISO format).
\<close>

lemma first_future_cf_least:
  assumes "first_future_cf cfs asof k = Some old"
  shows "old \<in> set cfs \<and> asof < iso_time (cf_date old) \<and> cf_instrument_id old = k
       \<and> (\<forall>c\<in>set cfs. asof < iso_time (cf_date c) \<and> cf_instrument_id c = k
             \<longrightarrow> iso_text (cf_date old) \<le> iso_text (cf_date c))"
proof -
  let ?P = "\<lambda>cf. iso_time (cf_date cf) > asof \<and> cf_instrument_id cf = k"
  let ?f = "\<lambda>cf. iso_text (cf_date cf)"
  from assms obtain rest where fut: "sort_key ?f (filter ?P cfs) = old # rest"
    by (auto simp: first_future_cf_def futures_def split: list.splits)
  have "set (old # rest) = set (filter ?P cfs)"
    by (simp only: fut[symmetric] set_sort)
  then have mem: "old \<in> set (filter ?P cfs)" and all: "set (filter ?P cfs) \<subseteq> set (old # rest)"
    by auto
  have "sorted (map ?f (old # rest))"
    by (simp only: fut[symmetric] sorted_sort_key)
  then have "\<forall>c\<in>set (old # rest). ?f old \<le> ?f c"
    by auto
  with all have "\<forall>c\<in>set (filter ?P cfs). ?f old \<le> ?f c"
    by blast
  with mem show ?thesis by auto
qed

lemma first_future_cf_earliest:
  assumes "first_future_cf cfs asof k = Some old"
    and "\<forall>c\<in>set cfs. asof < iso_time (cf_date c) \<and> cf_instrument_id c = k
           \<longrightarrow> iso_text (cf_date old) \<le> iso_text (cf_date c)
           \<longrightarrow> iso_time (cf_date old) \<le> iso_time (cf_date c)"
    and "c \<in> set cfs" and "asof < iso_time (cf_date c)" and "cf_instrument_id c = k"
  shows "iso_time (cf_date old) \<le> iso_time (cf_date c)"
  using first_future_cf_least[OF assms(1)] assms(2-5) by blast

lemma ex_inst_map:
  "inst_map ex_portfolio ''REPO1'' = Some (hd (liquidity_profile ex_portfolio))"
  by (simp add: inst_map_def ex_portfolio_def)


lemma ex_inst_typ: "inst_typ (hd (liquidity_profile ex_portfolio)) = ''repo''"
  by (simp add: inst_typ_def ex_portfolio_def lower_def lower_char_def is_upper_def)

lemma ex_inst_ccy: "inst_ccy (hd (liquidity_profile ex_portfolio)) = ''USD''"
  by (simp add: inst_ccy_def ex_portfolio_def)

lemma ex_first_future: "first_future_cf [ex_leg y] 0 ''REPO1'' = Some (ex_leg y)"
  by (simp add: first_future_cf_def futures_def ex_leg_def ex_event_def ex_day_def day_us_def)

lemma ex_first_future_spellings:
  "first_future_cf [ex_leg_t, ex_leg_blank] 0 ''REPO1'' = Some ex_leg_blank"
  by (simp add: first_future_cf_def futures_def ex_leg_t_def ex_leg_blank_def ex_event_def
      day_us_def)






text \<open>
  C4 (as amended). An impact with a date, action \<^verbatim>\<open>extend_maturity\<close>, a new maturity and
  amount \<open>a > 0\<close> on a liability-type instrument that has a future cashflow appends exactly
  two events: \<open>+|original amount|\<close> at the date of the original leg and \<open>- a\<close> at the new
  maturity, where the original leg is the first of the instrument's future cashflows in
  the order of their date strings. The magnitude of the new outflow is the impact's
  amount, not the larger of the two amounts.
\<close>

theorem extend_maturity_liability_events:
  assumes "imp_id imp = Some k" and "inst_map p k = Some inst"
    and "inst_typ inst \<in> set LIAB_TYPES"
    and "imp_action imp = Some ''extend_maturity''"
    and "imp_new_maturity imp = Some nm" and "iso_text nm \<noteq> []"
    and "imp_date imp = Some ds" and "iso_text ds \<noteq> []"
    and "imp_amount imp = Some (Number a)" and "0 < a"
    and "first_future_cf cfs asof k = Some old" and "iso_text (cf_date old) \<noteq> []"
    and "apply_instrument_impacts_to_cashflows cfs p (Some xs) asof = Inr r"
  shows "apply_instrument_impacts_to_cashflows cfs p (Some (xs @ [imp])) asof
           = Inr (r @ [\<lparr> cf_instrument_id = k, cf_type = inst_typ inst,
                           cf_currency = inst_ccy inst,
                           cf_date = cf_date old, cf_amount = \<bar>cf_amount old\<bar> \<rparr>,
                        \<lparr> cf_instrument_id = k, cf_type = inst_typ inst,
                           cf_currency = inst_ccy inst,
                           cf_date = nm, cf_amount = - a \<rparr>])"
proof (rule apply_snoc)
  show "apply_instrument_impacts_to_cashflows cfs p (Some xs) asof = Inr r"
    by (rule assms(13))
  show "impact_step (inst_map p) cfs asof imp []
          = Inr [\<lparr> cf_instrument_id = k, cf_type = inst_typ inst, cf_currency = inst_ccy inst,
                    cf_date = cf_date old, cf_amount = \<bar>cf_amount old\<bar> \<rparr>,
                 \<lparr> cf_instrument_id = k, cf_type = inst_typ inst, cf_currency = inst_ccy inst,
                    cf_date = nm, cf_amount = - a \<rparr>]"
    using assms(1-12)
    by (simp add: impact_step_def Let_def add_cf_def impact_amt_def action_in_def truthy_def)
qed

text \<open>
  The witness has two future legs on one day in two ISO spellings: the leg of \<open>-30\<close> at
  12:00 is written with a blank and sorts before the leg of \<open>-70\<close> at 08:00 written with
  a \<open>T\<close>, so the offset is \<open>+30\<close> at 12:00.
\<close>

theorem extend_maturity_liability_witness:
  "apply_instrument_impacts_to_cashflows [ex_leg_t, ex_leg_blank] ex_portfolio
     (Some [ex_impact ''margin_call'' 7, ex_impact ''extend_maturity'' 50]) 0
   = Inr [ex_leg_t, ex_leg_blank,
          ex_event (- 7) (ex_day ''1970-01-06'' 5),
          ex_event 30 (cf_date ex_leg_blank),
          ex_event (- 50) (ex_day ''1970-02-10'' 40)]"
proof -
  let ?i = "hd (liquidity_profile ex_portfolio)"
  have margin: "impact_step (inst_map ex_portfolio) [ex_leg_t, ex_leg_blank] 0
                  (ex_impact ''margin_call'' 7) []
                = Inr [ex_event (- 7) (ex_day ''1970-01-06'' 5)]"
    by (simp add: impact_step_def Let_def add_cf_def impact_amt_def truthy_def
        ex_inst_map ex_inst_typ ex_inst_ccy ex_impact_def ex_impact_on_def ex_event_def
        ex_day_def)
  have before: "apply_instrument_impacts_to_cashflows [ex_leg_t, ex_leg_blank] ex_portfolio
                  (Some [ex_impact ''margin_call'' 7]) 0
                = Inr ([ex_leg_t, ex_leg_blank] @ [ex_event (- 7) (ex_day ''1970-01-06'' 5)])"
    by (rule apply_single) (rule margin)
  have "apply_instrument_impacts_to_cashflows [ex_leg_t, ex_leg_blank] ex_portfolio
          (Some ([ex_impact ''margin_call'' 7] @ [ex_impact ''extend_maturity'' 50])) 0
        = Inr (([ex_leg_t, ex_leg_blank] @ [ex_event (- 7) (ex_day ''1970-01-06'' 5)])
               @ [\<lparr> cf_instrument_id = ''REPO1'', cf_type = inst_typ ?i,
                     cf_currency = inst_ccy ?i,
                     cf_date = cf_date ex_leg_blank, cf_amount = \<bar>cf_amount ex_leg_blank\<bar> \<rparr>,
                  \<lparr> cf_instrument_id = ''REPO1'', cf_type = inst_typ ?i,
                     cf_currency = inst_ccy ?i,
                     cf_date = ex_day ''1970-02-10'' 40, cf_amount = - 50 \<rparr>])"
  proof (rule extend_maturity_liability_events[where ds = "ex_day ''1970-01-06'' 5"])
    show "first_future_cf [ex_leg_t, ex_leg_blank] 0 ''REPO1'' = Some ex_leg_blank"
      by (rule ex_first_future_spellings)
    show "apply_instrument_impacts_to_cashflows [ex_leg_t, ex_leg_blank] ex_portfolio
            (Some [ex_impact ''margin_call'' 7]) 0
          = Inr ([ex_leg_t, ex_leg_blank] @ [ex_event (- 7) (ex_day ''1970-01-06'' 5)])"
      by (rule before)
  qed (simp_all add: ex_inst_map ex_inst_typ LIAB_TYPES_def ex_impact_def ex_impact_on_def
        ex_day_def ex_leg_blank_def ex_event_def)
  then show ?thesis
    by (simp add: ex_inst_typ ex_inst_ccy ex_event_def ex_leg_blank_def)
qed

text \<open>
  Extending a leg of \<open>-100\<close> with an impact of amount \<open>50\<close>: the new outflow is
  \<open>-50\<close>, not \<open>- max 50 100\<close>.
\<close>

theorem extend_maturity_max_counterexample:
  "apply_instrument_impacts_to_cashflows [ex_leg (- 100)] ex_portfolio
     (Some [ex_impact ''extend_maturity'' 50]) 0
   = Inr [ex_leg (- 100), ex_event 100 (ex_day ''1970-01-11'' 10),
          ex_event (- 50) (ex_day ''1970-02-10'' 40)]
   \<and> ex_event (- 50) (ex_day ''1970-02-10'' 40)
       \<noteq> ex_event (- max 50 \<bar>cf_amount (ex_leg (- 100))\<bar>) (ex_day ''1970-02-10'' 40)"
proof -
  have "impact_step (inst_map ex_portfolio) [ex_leg (- 100)] 0
          (ex_impact ''extend_maturity'' 50) []
        = Inr [ex_event \<bar>cf_amount (ex_leg (- 100))\<bar> (cf_date (ex_leg (- 100))),
               ex_event (- 50) (ex_day ''1970-02-10'' 40)]"
    by (simp add: impact_step_def Let_def add_cf_def impact_amt_def action_in_def truthy_def
        ex_inst_map ex_inst_typ ex_inst_ccy ex_first_future LIAB_TYPES_def
        ex_impact_def ex_impact_on_def ex_event_def)
       (simp add: ex_leg_def ex_event_def ex_day_def)
  from apply_single[OF this] show ?thesis
    by (simp add: ex_event_def ex_leg_def)
qed

subsection \<open>Impacts and the daily roll-up\<close>

lemma roll_append:
  "roll_daily_contractual_flows_detail (cfs @ es) asof h
     = fold (roll_step asof (plus_days asof h)) es (roll_daily_contractual_flows_detail cfs asof h)"
  by (simp add: roll_daily_contractual_flows_detail_def)

lemma bucket_roll_step:
  "bucket (roll_step asof e cf daily) k =
     (if asof < iso_time (cf_date cf) \<and> iso_time (cf_date cf) \<le> e
         \<and> date_of (iso_time (cf_date cf)) = k then
        (if cf_amount cf \<ge> 0
         then (bucket daily k)\<lparr>io_in := io_in (bucket daily k) + cf_amount cf\<rparr>
         else (bucket daily k)\<lparr>io_out := io_out (bucket daily k) + - cf_amount cf\<rparr>)
      else bucket daily k)"
  by (simp add: roll_step_def Let_def bucket_def)

lemma first_future_sole:
  assumes "filter (\<lambda>cf. asof < iso_time (cf_date cf) \<and> cf_instrument_id cf = k) cfs = [leg]"
  shows "first_future_cf cfs asof k = Some leg"
  using assms by (simp add: first_future_cf_def futures_def)

text \<open>
  C5 (as amended). A \<^verbatim>\<open>not_rollover\<close> impact of amount \<open>X > 0\<close> dated \<open>t\<close> on a
  liability-type instrument whose sole future cashflow is dated \<open>D\<close> appends exactly the
  two events \<open>(- X, t)\<close> and \<open>(+ X, D)\<close> after the unchanged original list. After the
  roll-up over a horizon that contains \<open>D\<close>, the bucket of \<open>D\<close>'s day is the baseline
  bucket with its inflow raised by \<open>X\<close>, and with its outflow raised by \<open>X\<close> as well when
  the impact date falls on the same day inside the window; so the net position of that
  bucket differs from the baseline's by zero when the impact falls on \<open>D\<close>'s day and by
  \<open>X\<close> otherwise, whatever the amount of the original leg is.
\<close>

theorem not_rollover_sole_leg:
  assumes "imp_id imp = Some k" and "inst_map p k = Some inst"
    and "inst_typ inst \<in> set LIAB_TYPES"
    and "imp_action imp = Some ''not_rollover''"
    and "imp_date imp = Some t" and "iso_text t \<noteq> []"
    and "imp_amount imp = Some (Number X)" and "0 < X"
    and "filter (\<lambda>cf. asof < iso_time (cf_date cf) \<and> cf_instrument_id cf = k) cfs = [leg]"
    and "cf_date leg = D" and "iso_text D \<noteq> []"
    and "e1 = \<lparr> cf_instrument_id = k, cf_type = inst_typ inst, cf_currency = inst_ccy inst,
                 cf_date = t, cf_amount = - X \<rparr>"
    and "e2 = \<lparr> cf_instrument_id = k, cf_type = inst_typ inst, cf_currency = inst_ccy inst,
                 cf_date = D, cf_amount = X \<rparr>"
    and "same_day \<longleftrightarrow> asof < iso_time t \<and> iso_time t \<le> plus_days asof h
                       \<and> date_of (iso_time t) = date_of (iso_time D)"
    and "base = bucket (roll_daily_contractual_flows_detail cfs asof h) (date_of (iso_time D))"
    and "new = bucket (roll_daily_contractual_flows_detail (cfs @ [e1, e2]) asof h)
                 (date_of (iso_time D))"
  shows "apply_instrument_impacts_to_cashflows cfs p (Some [imp]) asof = Inr (cfs @ [e1, e2])
       \<and> (iso_time D \<le> plus_days asof h \<longrightarrow>
            new = \<lparr> io_in = io_in base + X,
                    io_out = io_out base + (if same_day then X else 0) \<rparr>
            \<and> net_position new - net_position base = (if same_day then 0 else X))"
proof -
  have old: "first_future_cf cfs asof k = Some leg"
    by (rule first_future_sole) (rule assms(9))
  have "leg \<in> set (filter (\<lambda>cf. asof < iso_time (cf_date cf) \<and> cf_instrument_id cf = k) cfs)"
    by (simp add: assms(9))
  then have future: "asof < iso_time D"
    using assms(10) by simp
  have step: "impact_step (inst_map p) cfs asof imp [] = Inr [e1, e2]"
    using assms(1-8,10-13) old
    by (simp add: impact_step_def Let_def add_cf_def impact_amt_def action_in_def truthy_def)
  have app: "apply_instrument_impacts_to_cashflows cfs p (Some [imp]) asof
               = Inr (cfs @ [e1, e2])"
    by (rule apply_single) (rule step)
  have roll: "new = \<lparr> io_in = io_in base + X,
                      io_out = io_out base + (if same_day then X else 0) \<rparr>"
    if "iso_time D \<le> plus_days asof h"
    unfolding assms(16) assms(15)
    using that future \<open>0 < X\<close> assms(14)
    by (simp add: roll_append bucket_roll_step assms(12,13))
  have net: "net_position new - net_position base = (if same_day then 0 else X)"
    if "iso_time D \<le> plus_days asof h"
    using roll[OF that] by (simp add: net_position_def)
  from app roll net show ?thesis by blast
qed

lemma ex_date_of: "date_of (iso_time (ex_day s n)) = n"
  by (simp add: ex_day_def date_of_def day_us_def)

lemma ex_after_anchor: "0 < iso_time (ex_day s n) \<longleftrightarrow> 0 < n"
  by (simp add: ex_day_def day_us_def)

lemma ex_in_horizon: "iso_time (ex_day s n) \<le> plus_days 0 h \<longleftrightarrow> n \<le> h"
  by (simp add: ex_day_def plus_days_def day_us_def)

lemma ex_not_rollover_step:
  assumes "iso_text d \<noteq> []"
  shows "impact_step (inst_map ex_portfolio) [ex_leg y] 0
           (ex_impact_on d ''not_rollover'' (Number 100)) []
         = Inr [ex_event (- 100) d, ex_event 100 (ex_day ''1970-01-11'' 10)]"
proof -
  have "cf_date (ex_leg y) = ex_day ''1970-01-11'' 10"
    by (simp add: ex_leg_def ex_event_def)
  moreover have "iso_text (ex_day ''1970-01-11'' 10) \<noteq> []"
    by (simp add: ex_day_def)
  ultimately show ?thesis
    using assms
    by (simp add: impact_step_def Let_def add_cf_def impact_amt_def action_in_def truthy_def
        ex_inst_map ex_inst_typ ex_inst_ccy ex_first_future LIAB_TYPES_def
        ex_impact_on_def ex_event_def)
qed

lemma ex_roll_bucket:
  "bucket (roll_daily_contractual_flows_detail (ex_event y (ex_day s n) # cfs) 0 180) 10
     = bucket (fold (roll_step 0 (plus_days 0 180)) cfs
                 (roll_step 0 (plus_days 0 180) (ex_event y (ex_day s n)) Map.empty)) 10"
  by (simp add: roll_daily_contractual_flows_detail_def)

lemma ex_baseline_bucket:
  "bucket (roll_daily_contractual_flows_detail [ex_leg y] 0 180) 10
     = (if y \<ge> 0 then \<lparr> io_in = y, io_out = 0 \<rparr> else \<lparr> io_in = 0, io_out = - y \<rparr>)"
  unfolding roll_daily_contractual_flows_detail_def ex_leg_def fold_simps id_apply comp_apply
  by (simp add: bucket_roll_step ex_date_of ex_after_anchor ex_in_horizon ex_event_def)
     (simp add: bucket_def zero_io_def)

lemma ex_new_bucket:
  "bucket (roll_daily_contractual_flows_detail
             [ex_leg y, ex_event (- 100) (ex_day s n), ex_event 100 (ex_day ''1970-01-11'' 10)]
             0 180) 10
     = \<lparr> io_in = io_in (bucket (roll_daily_contractual_flows_detail [ex_leg y] 0 180) 10) + 100,
         io_out = io_out (bucket (roll_daily_contractual_flows_detail [ex_leg y] 0 180) 10)
                  + (if n = 10 then 100 else 0) \<rparr>"
  unfolding roll_daily_contractual_flows_detail_def ex_leg_def fold_simps id_apply comp_apply
  by (simp add: bucket_roll_step ex_date_of ex_after_anchor ex_in_horizon ex_event_def)

theorem not_rollover_sole_leg_witness:
  "apply_instrument_impacts_to_cashflows [ex_leg (- 100)] ex_portfolio
     (Some [ex_impact ''not_rollover'' 100]) 0
     = Inr [ex_leg (- 100), ex_event (- 100) (ex_day ''1970-01-06'' 5),
            ex_event 100 (ex_day ''1970-01-11'' 10)]
   \<and> bucket (roll_daily_contractual_flows_detail
               [ex_leg (- 100), ex_event (- 100) (ex_day ''1970-01-06'' 5),
                ex_event 100 (ex_day ''1970-01-11'' 10)] 0 180) 10
     = \<lparr> io_in = 100, io_out = 100 \<rparr>
   \<and> net_position
        (bucket (roll_daily_contractual_flows_detail
                   [ex_leg (- 100), ex_event (- 100) (ex_day ''1970-01-06'' 5),
                    ex_event 100 (ex_day ''1970-01-11'' 10)] 0 180) 10)
      - net_position (bucket (roll_daily_contractual_flows_detail [ex_leg (- 100)] 0 180) 10)
     = 100"
proof -
  let ?i = "hd (liquidity_profile ex_portfolio)"
  let ?t = "ex_day ''1970-01-06'' 5"
  let ?D = "ex_day ''1970-01-11'' 10"
  let ?e1 = "\<lparr> cf_instrument_id = ''REPO1'', cf_type = inst_typ ?i, cf_currency = inst_ccy ?i,
                cf_date = ?t, cf_amount = - 100 \<rparr>"
  let ?e2 = "\<lparr> cf_instrument_id = ''REPO1'', cf_type = inst_typ ?i, cf_currency = inst_ccy ?i,
                cf_date = ?D, cf_amount = 100 \<rparr>"
  have e1: "?e1 = ex_event (- 100) ?t" and e2: "?e2 = ex_event 100 ?D"
    by (simp_all add: ex_event_def ex_inst_typ ex_inst_ccy)
  have sole: "filter (\<lambda>cf. 0 < iso_time (cf_date cf) \<and> cf_instrument_id cf = ''REPO1'')
                [ex_leg (- 100)] = [ex_leg (- 100)]"
    by (simp add: ex_leg_def ex_event_def ex_after_anchor)
  have th: "apply_instrument_impacts_to_cashflows [ex_leg (- 100)] ex_portfolio
              (Some [ex_impact ''not_rollover'' 100]) 0 = Inr ([ex_leg (- 100)] @ [?e1, ?e2])
          \<and> (iso_time ?D \<le> plus_days 0 180 \<longrightarrow>
               bucket (roll_daily_contractual_flows_detail ([ex_leg (- 100)] @ [?e1, ?e2]) 0 180)
                 (date_of (iso_time ?D))
               = \<lparr> io_in = io_in (bucket (roll_daily_contractual_flows_detail [ex_leg (- 100)]
                                             0 180) (date_of (iso_time ?D))) + 100,
                    io_out = io_out (bucket (roll_daily_contractual_flows_detail [ex_leg (- 100)]
                                               0 180) (date_of (iso_time ?D)))
                             + (if 0 < iso_time ?t \<and> iso_time ?t \<le> plus_days 0 180
                                   \<and> date_of (iso_time ?t) = date_of (iso_time ?D)
                                then 100 else 0) \<rparr>
               \<and> net_position
                    (bucket (roll_daily_contractual_flows_detail ([ex_leg (- 100)] @ [?e1, ?e2])
                               0 180) (date_of (iso_time ?D)))
                 - net_position
                     (bucket (roll_daily_contractual_flows_detail [ex_leg (- 100)] 0 180)
                        (date_of (iso_time ?D)))
                 = (if 0 < iso_time ?t \<and> iso_time ?t \<le> plus_days 0 180
                       \<and> date_of (iso_time ?t) = date_of (iso_time ?D)
                    then 0 else 100))"
  proof (rule not_rollover_sole_leg
      [where imp = "ex_impact ''not_rollover'' 100" and k = "''REPO1''" and p = ex_portfolio
         and inst = ?i and t = ?t and X = 100 and asof = 0 and cfs = "[ex_leg (- 100)]"
         and leg = "ex_leg (- 100)" and D = ?D and h = 180,
       OF _ _ _ _ _ _ _ _ _ _ _ refl refl refl refl refl])
    show "filter (\<lambda>cf. 0 < iso_time (cf_date cf) \<and> cf_instrument_id cf = ''REPO1'')
            [ex_leg (- 100)] = [ex_leg (- 100)]"
      by (rule sole)
    show "inst_map ex_portfolio ''REPO1'' = Some ?i"
      by (rule ex_inst_map)
    show "inst_typ ?i \<in> set LIAB_TYPES"
      by (simp add: ex_inst_typ LIAB_TYPES_def)
    show "cf_date (ex_leg (- 100)) = ?D"
      by (simp add: ex_leg_def ex_event_def)
    show "iso_text ?t \<noteq> []" and "iso_text ?D \<noteq> []"
      by (simp_all add: ex_day_def)
  qed (simp_all add: ex_impact_def ex_impact_on_def)
  have inh: "iso_time ?D \<le> plus_days 0 180"
    by (simp add: ex_in_horizon)
  show ?thesis
    using th inh
    by (simp add: e1 e2 ex_date_of ex_after_anchor ex_in_horizon ex_baseline_bucket
        net_position_def)
qed

text \<open>
  Three runs with \<open>X = 100\<close>, on the bucket of the leg's day. With a sole leg of \<open>+100\<close>
  (the amount \<open>Y\<close> equal to \<open>X\<close>) it goes from \<open>(in 100, out 0)\<close> to \<open>(in 200, out 0)\<close>.
  With a sole leg of \<open>-100\<close> (an outflow of \<open>X\<close>) and the impact on another day it goes
  from \<open>(in 0, out 100)\<close> to \<open>(in 100, out 100)\<close>: the net position has changed by
  \<open>+100\<close>. With the same leg and the impact on the leg's day it goes to
  \<open>(in 100, out 200)\<close>: the net position is unchanged and is not zero.
\<close>

theorem not_rollover_bucket_counterexample:
  "apply_instrument_impacts_to_cashflows [ex_leg 100] ex_portfolio
     (Some [ex_impact ''not_rollover'' 100]) 0
     = Inr [ex_leg 100, ex_event (- 100) (ex_day ''1970-01-06'' 5),
            ex_event 100 (ex_day ''1970-01-11'' 10)]
   \<and> bucket (roll_daily_contractual_flows_detail [ex_leg 100] 0 180) 10
     = \<lparr> io_in = 100, io_out = 0 \<rparr>
   \<and> bucket (roll_daily_contractual_flows_detail
               [ex_leg 100, ex_event (- 100) (ex_day ''1970-01-06'' 5),
                ex_event 100 (ex_day ''1970-01-11'' 10)] 0 180) 10
     = \<lparr> io_in = 200, io_out = 0 \<rparr>
   \<and> apply_instrument_impacts_to_cashflows [ex_leg (- 100)] ex_portfolio
     (Some [ex_impact ''not_rollover'' 100]) 0
     = Inr [ex_leg (- 100), ex_event (- 100) (ex_day ''1970-01-06'' 5),
            ex_event 100 (ex_day ''1970-01-11'' 10)]
   \<and> bucket (roll_daily_contractual_flows_detail [ex_leg (- 100)] 0 180) 10
     = \<lparr> io_in = 0, io_out = 100 \<rparr>
   \<and> bucket (roll_daily_contractual_flows_detail
               [ex_leg (- 100), ex_event (- 100) (ex_day ''1970-01-06'' 5),
                ex_event 100 (ex_day ''1970-01-11'' 10)] 0 180) 10
     = \<lparr> io_in = 100, io_out = 100 \<rparr>
   \<and> apply_instrument_impacts_to_cashflows [ex_leg (- 100)] ex_portfolio
     (Some [ex_impact_on (ex_day ''1970-01-11'' 10) ''not_rollover'' (Number 100)]) 0
     = Inr [ex_leg (- 100), ex_event (- 100) (ex_day ''1970-01-11'' 10),
            ex_event 100 (ex_day ''1970-01-11'' 10)]
   \<and> bucket (roll_daily_contractual_flows_detail
               [ex_leg (- 100), ex_event (- 100) (ex_day ''1970-01-11'' 10),
                ex_event 100 (ex_day ''1970-01-11'' 10)] 0 180) 10
     = \<lparr> io_in = 100, io_out = 200 \<rparr>"
proof -
  have written: "iso_text (ex_day ''1970-01-06'' 5) \<noteq> []" "iso_text (ex_day ''1970-01-11'' 10) \<noteq> []"
    by (simp_all add: ex_day_def)
  have run: "apply_instrument_impacts_to_cashflows [ex_leg y] ex_portfolio
               (Some [ex_impact_on d ''not_rollover'' (Number 100)]) 0
             = Inr [ex_leg y, ex_event (- 100) d, ex_event 100 (ex_day ''1970-01-11'' 10)]"
    if "iso_text d \<noteq> []" for y d
    using apply_single[OF ex_not_rollover_step[OF that]] by simp
  show ?thesis
    by (simp add: run[OF written(1), folded ex_impact_def] run[OF written(2)]
        ex_baseline_bucket ex_new_bucket)
qed

subsection \<open>Behavior parameters: order of clamp and severity\<close>

text \<open>
  C3 (as amended). The deposit run-off percentage is the base formula multiplied by the
  severity multiplier and then clamped to \<open>[0.3, 8.0]\<close>; as a fraction it therefore
  always lies in \<open>[0.003, 0.08]\<close>.
\<close>

theorem deposit_runoff_clamp_after_severity:
  "deposit_runoff_30d_pct (scenario_to_behavior_params m severity)
     = clamp ((0.5 + 0.01 * (get_float (vix m) 18 - 18)
                   + 0.002 * (get_float (credit_spreads_baa m) 180 - 180))
              * sev_mult severity) 0.3 8.0 / 100
   \<and> 0.003 \<le> deposit_runoff_30d_pct (scenario_to_behavior_params m severity)
   \<and> deposit_runoff_30d_pct (scenario_to_behavior_params m severity) \<le> 0.08"
  by (simp add: scenario_to_behavior_params_def Let_def clamp_def)

text \<open>
  At \<open>vix = 17\<close>, other inputs defaulted, severity "mild": the code returns \<open>0.003\<close>
  (0.294 clamped up to 0.3), the clamp-then-scale formula gives \<open>0.00294\<close>.
\<close>

theorem deposit_runoff_clamp_order_counterexample:
  "deposit_runoff_30d_pct
     (scenario_to_behavior_params
        \<lparr> vix = Some 17, credit_spreads_baa = None, credit_spreads_hy = None,
          us10y_yield = None \<rparr> ''mild'') = 0.003
   \<and> spec_deposit_runoff_30d_pct
        \<lparr> vix = Some 17, credit_spreads_baa = None, credit_spreads_hy = None,
          us10y_yield = None \<rparr> ''mild'' = 0.00294"
  by (simp add: scenario_to_behavior_params_def Let_def clamp_def
      spec_deposit_runoff_30d_pct_def get_float_def sev_mult_mild)

subsection \<open>Series combiner\<close>

lemma combine_step_empty: "combine_step S Map.empty = S"
  by (rule ext) (simp add: combine_step_def bucket_def zero_io_def split: option.split)

lemma combine_two: "combine_daily_detail [S, Z] = combine_step Z S"
  by (simp add: combine_daily_detail_def combine_step_empty)

text \<open>
  C9 (as amended). Combining a series \<open>S\<close> with a series \<open>Z\<close> whose buckets are all
  \<open>{in: 0, out: 0}\<close> gives a series that reads, at every date, the same bucket as \<open>S\<close>
  (a missing date reading as the zero bucket); its dates are those of \<open>S\<close> and of \<open>Z\<close>
  together, and it is equal to \<open>S\<close> when every date of \<open>Z\<close> is a date of \<open>S\<close>.
\<close>

theorem combine_zero_series:
  assumes "\<forall>d e. Z d = Some e \<longrightarrow> e = zero_io"
  shows "(\<forall>d. bucket (combine_daily_detail [S, Z]) d = bucket S d)
       \<and> dom (combine_daily_detail [S, Z]) = dom S \<union> dom Z
       \<and> (dom Z \<subseteq> dom S \<longrightarrow> combine_daily_detail [S, Z] = S)"
proof (intro conjI allI impI)
  fix d
  show "bucket (combine_daily_detail [S, Z]) d = bucket S d"
  proof (cases "Z d")
    case None
    then show ?thesis by (simp add: combine_two combine_step_def bucket_def)
  next
    case (Some e)
    then have "e = zero_io" using assms by blast
    then show ?thesis
      using Some
      by (simp add: combine_two combine_step_def bucket_def zero_io_def split: option.split)
  qed
next
  show "dom (combine_daily_detail [S, Z]) = dom S \<union> dom Z"
    by (auto simp: combine_two combine_step_def dom_def split: option.splits)
next
  assume sub: "dom Z \<subseteq> dom S"
  show "combine_daily_detail [S, Z] = S"
  proof (rule ext)
    fix d
    show "combine_daily_detail [S, Z] d = S d"
    proof (cases "Z d")
      case None
      then show ?thesis by (simp add: combine_two combine_step_def)
    next
      case (Some e)
      then have "e = zero_io" using assms by blast
      moreover from Some sub obtain x where "S d = Some x" by blast
      ultimately show ?thesis
        using Some by (simp add: combine_two combine_step_def bucket_def zero_io_def)
    qed
  qed
qed

theorem combine_zero_series_witness:
  "bucket (combine_daily_detail
            [[1 \<mapsto> \<lparr>io_in = 5, io_out = 3\<rparr>], [1 \<mapsto> zero_io, 2 \<mapsto> zero_io]]) 1
     = \<lparr>io_in = 5, io_out = 3\<rparr>
   \<and> dom (combine_daily_detail
            [[1 \<mapsto> \<lparr>io_in = 5, io_out = 3\<rparr>], [1 \<mapsto> zero_io, 2 \<mapsto> zero_io]]) = {1, 2}"
proof -
  have z: "\<forall>d e. [1 \<mapsto> zero_io, (2::int) \<mapsto> zero_io] d = Some e \<longrightarrow> e = zero_io"
    by (simp split: if_splits)
  have "bucket (combine_daily_detail
            [[1 \<mapsto> \<lparr>io_in = 5, io_out = 3\<rparr>], [1 \<mapsto> zero_io, 2 \<mapsto> zero_io]]) 1
          = bucket [1 \<mapsto> \<lparr>io_in = 5, io_out = 3\<rparr>] 1"
    and "dom (combine_daily_detail
            [[1 \<mapsto> \<lparr>io_in = 5, io_out = 3\<rparr>], [1 \<mapsto> zero_io, 2 \<mapsto> zero_io]])
          = dom [(1::int) \<mapsto> \<lparr>io_in = 5, io_out = 3\<rparr>] \<union> dom [1 \<mapsto> zero_io, (2::int) \<mapsto> zero_io]"
    using combine_zero_series[OF z, of "[1 \<mapsto> \<lparr>io_in = 5, io_out = 3\<rparr>]"] by blast+
  then show ?thesis
    by (auto simp: bucket_def)
qed

text \<open>
  A zero bucket on a date that \<open>S\<close> does not have becomes a new key of the result, so
  the result is not the dictionary \<open>S\<close>.
\<close>

theorem combine_zero_series_counterexample:
  "combine_daily_detail [[1 \<mapsto> \<lparr>io_in = 5, io_out = 3\<rparr>], [2 \<mapsto> zero_io]]
     \<noteq> [1 \<mapsto> \<lparr>io_in = 5, io_out = 3\<rparr>]"
proof
  assume "combine_daily_detail [[1 \<mapsto> \<lparr>io_in = 5, io_out = 3\<rparr>], [2 \<mapsto> zero_io]]
            = [1 \<mapsto> \<lparr>io_in = 5, io_out = 3\<rparr>]"
  then have "combine_daily_detail [[1 \<mapsto> \<lparr>io_in = 5, io_out = 3\<rparr>], [2 \<mapsto> zero_io]] 2
               = [(1::int) \<mapsto> \<lparr>io_in = 5, io_out = 3\<rparr>] 2"
    by simp
  then show False
    by (simp add: combine_two combine_step_def)
qed

subsection \<open>HQLA eligibility calculator\<close>

lemma ex_hqla_levels: "hqla_levels ex_hqla_portfolio = (100, 850, 1000)"
  by (simp add: hqla_levels_def ex_hqla_portfolio_def hqla_step_def Let_def lower_def
      lower_char_def is_upper_def strip_def is_space_def ASSET_TYPES_def)

text \<open>
  C1. The caps are taken against the totals before the rescaling, so the shares of the
  returned total can exceed them. For a reserve of 100, a Level 2A bond of 1000 and a
  Level 2B bond of 2000 the returned total is about 597, of which Level 2B is about 127
  (more than 15 percent) and Level 2A plus Level 2B about 497 (more than 40 percent).
\<close>

theorem hqla_caps_miss_returned_total:
  "(case apply_caps (hqla_levels ex_hqla_portfolio) of (l1, l2a, l2b) \<Rightarrow>
      l1 + l2a + l2b = compute_hqla_eligible ex_hqla_portfolio
      \<and> l2b > 0.15 * compute_hqla_eligible ex_hqla_portfolio + 1 / 10 ^ 6
      \<and> l2a + l2b > 0.40 * compute_hqla_eligible ex_hqla_portfolio + 1 / 10 ^ 6)"
  by (simp add: compute_hqla_eligible_def ex_hqla_levels apply_caps_def Let_def)

text \<open>The returned amount is never negative.\<close>

lemma hqla_nonneg: "0 \<le> compute_hqla_eligible p"
  by (simp add: compute_hqla_eligible_def split: prod.split)

subsection \<open>KPI calculator\<close>

lemma date_of_plus_days: "date_of (plus_days a k) = date_of a + k"
  by (simp add: date_of_def plus_days_def day_us_def)

lemma length_horizon_dates: "length (horizon_dates a h) = nat h"
  by (simp add: horizon_dates_def)

lemma nth_horizon_dates:
  "i < nat h \<Longrightarrow> horizon_dates a h ! i = day_after a (int i + 1)"
  by (simp add: horizon_dates_def day_after_def add.commute)

lemma fold_max_ge: "w0 \<le> fold (\<lambda>i w. max w (f i)) xs (w0::real)"
proof (induction xs arbitrary: w0)
  case Nil
  show ?case by simp
next
  case (Cons x xs)
  have "w0 \<le> max w0 (f x)" by simp
  also have "\<dots> \<le> fold (\<lambda>i w. max w (f i)) xs (max w0 (f x))" by (rule Cons.IH)
  finally show ?case by simp
qed

lemma fold_max_Max:
  "xs \<noteq> [] \<Longrightarrow> fold (\<lambda>i w. max w (f i)) xs (w0::real) = max w0 (Max (f ` set xs))"
proof (induction xs arbitrary: w0)
  case Nil
  then show ?case by simp
next
  case (Cons x xs)
  show ?case
  proof (cases "xs = []")
    case True
    then show ?thesis by simp
  next
    case False
    then have "f ` set xs \<noteq> {}" by simp
    then have "Max (insert (f x) (f ` set xs)) = max (f x) (Max (f ` set xs))"
      by (simp add: Max_insert)
    with Cons.IH[OF False, of "max w0 (f x)"] show ?thesis
      by (simp add: max.assoc)
  qed
qed

lemma sum_nat_window:
  "(\<Sum>j = 0..<n. f (int (i + j) + 1)) = (\<Sum>k = int i + 1..int i + int n. f k)"
proof (induction n)
  case 0
  show ?case by simp
next
  case (Suc n)
  have "{int i + 1..int i + int (Suc n)} = insert (int i + int n + 1) {int i + 1..int i + int n}"
    by auto
  then show ?case
    using Suc.IH by (simp add: add.commute)
qed

lemma sum_list_window:
  assumes "i + 30 \<le> length xs"
  shows "sum_list (take 30 (drop i xs)) = (\<Sum>j = 0..<30. (xs ! (i + j) :: real))"
proof -
  have len: "length (take 30 (drop i xs)) = 30"
    using assms by simp
  have "sum_list (take 30 (drop i xs))
          = (\<Sum>j = 0..<length (take 30 (drop i xs)). take 30 (drop i xs) ! j)"
    by (rule sum_list_sum_nth)
  also have "\<dots> = (\<Sum>j = 0..<30. take 30 (drop i xs) ! j)"
    by (simp only: len)
  also have "\<dots> = (\<Sum>j = 0..<30. xs ! (i + j))"
    using assms by (intro sum.cong) simp_all
  finally show ?thesis .
qed

lemma window_sum_series:
  assumes "i + 30 \<le> nat h"
  shows "sum_list (take 30 (drop i (map g (horizon_dates a h))))
           = (\<Sum>k = int i + 1..int i + 30. (g (day_after a k) :: real))"
proof -
  have "sum_list (take 30 (drop i (map g (horizon_dates a h))))
          = (\<Sum>j = 0..<30. map g (horizon_dates a h) ! (i + j))"
    using assms by (intro sum_list_window) (simp add: length_horizon_dates)
  also have "\<dots> = (\<Sum>j = 0..<30. g (day_after a (int (i + j) + 1)))"
    using assms by (intro sum.cong) (simp_all add: length_horizon_dates nth_horizon_dates)
  also have "\<dots> = (\<Sum>k = int i + 1..int i + int 30. g (day_after a k))"
    by (rule sum_nat_window)
  finally show ?thesis by simp
qed

lemma window_net_spec:
  assumes "i + 30 \<le> nat h"
  shows "window_net (map (get_in detail) (horizon_dates a h))
           (map (get_out detail) (horizon_dates a h)) i
         = spec_window_net detail a (int i + 1)"
  by (simp add: window_net_def spec_window_net_def Let_def window_sum_series[OF assms]
      add.assoc)

lemma window_starts: "(\<lambda>i. int i + 1) ` {0..<nat h - 29} = {1..h - 29}"
proof (intro set_eqI iffI)
  fix x assume "x \<in> (\<lambda>i. int i + 1) ` {0..<nat h - 29}"
  then show "x \<in> {1..h - 29}" by auto
next
  fix x assume x: "x \<in> {1..h - 29}"
  then have "x = int (nat (x - 1)) + 1" and "nat (x - 1) \<in> {0..<nat h - 29}"
    by auto
  then show "x \<in> (\<lambda>i. int i + 1) ` {0..<nat h - 29}" by (rule image_eqI)
qed

text \<open>
  C2. For every series, anchor, HQLA stock and horizon the worst 30-day outflow is at least
  \<open>1\<close>; for a horizon of at least 30 days it is the maximum, over the windows starting on
  days \<open>1\<close> to \<open>horizon - 29\<close> after the anchor, of
  \<open>max 0 (outflow sum - min (inflow sum) (0.75 * outflow sum))\<close>, floored at \<open>1\<close>.
\<close>

theorem worst_30d_outflow_windows:
  "1 \<le> worst_30d_outflow (compute_kpis_from_daily_detail detail a hq h)
   \<and> (30 \<le> h \<longrightarrow>
        worst_30d_outflow (compute_kpis_from_daily_detail detail a hq h)
          = spec_worst_30d_outflow detail a h)"
proof -
  let ?inflow = "map (get_in detail) (horizon_dates a h)"
  let ?outflow = "map (get_out detail) (horizon_dates a h)"
  have worst: "worst_30d_outflow (compute_kpis_from_daily_detail detail a hq h)
                 = worst_30 ?inflow ?outflow"
    by (simp add: compute_kpis_from_daily_detail_def Let_def split: prod.split)
  have ge: "1 \<le> worst_30 ?inflow ?outflow"
    unfolding worst_30_def by (rule fold_max_ge)
  have eq: "worst_30 ?inflow ?outflow = spec_worst_30d_outflow detail a h" if "30 \<le> h"
  proof -
    have ne: "[0..<nat h - 29] \<noteq> []"
      using that by simp
    have "window_net ?inflow ?outflow ` set [0..<nat h - 29]
            = (\<lambda>i. spec_window_net detail a (int i + 1)) ` {0..<nat h - 29}"
      by (intro image_cong) (auto simp: window_net_spec)
    also have "\<dots> = spec_window_net detail a ` ((\<lambda>i. int i + 1) ` {0..<nat h - 29})"
      by (simp add: image_image)
    also have "\<dots> = spec_window_net detail a ` {1..h - 29}"
      by (simp only: window_starts)
    finally have img: "window_net ?inflow ?outflow ` set [0..<nat h - 29]
            = spec_window_net detail a ` {1..h - 29}" .
    have "worst_30 ?inflow ?outflow
            = max 1 (Max (window_net ?inflow ?outflow ` set [0..<nat h - 29]))"
      unfolding worst_30_def length_map length_horizon_dates
      by (rule fold_max_Max[OF ne])
    also have "\<dots> = max 1 (Max (spec_window_net detail a ` {1..h - 29}))"
      by (simp only: img)
    finally show ?thesis
      by (simp only: spec_worst_30d_outflow_def)
  qed
  show ?thesis
    unfolding worst using ge eq by blast
qed

lemma day_after_zero: "day_after 0 k = k"
  by (simp add: day_after_def date_of_def plus_days_def day_us_def)

theorem worst_30d_outflow_windows_witness:
  "(30::int) \<le> 30
   \<and> worst_30d_outflow
        (compute_kpis_from_daily_detail [1 \<mapsto> \<lparr>io_in = 0, io_out = 10\<rparr>] 0 0 30) = 10"
proof -
  let ?D = "[(1::int) \<mapsto> \<lparr>io_in = 0, io_out = 10\<rparr>]"
  have h: "(30::int) \<le> 30" by simp
  have out: "get_out ?D k = (if k = 1 then 10 else 0)" for k
    by (simp add: get_out_def)
  have inf: "get_in ?D k = 0" for k
    by (simp add: get_in_def)
  have "spec_window_net ?D 0 1 = 10"
    by (simp add: spec_window_net_def day_after_zero out inf)
  moreover have "{1..(30::int) - 29} = {1}"
    by auto
  ultimately have "spec_worst_30d_outflow ?D 0 30 = 10"
    by (simp add: spec_worst_30d_outflow_def)
  moreover have "worst_30d_outflow (compute_kpis_from_daily_detail ?D 0 0 30)
                   = spec_worst_30d_outflow ?D 0 30"
    using worst_30d_outflow_windows[of ?D 0 0 30] h by blast
  ultimately show ?thesis by simp
qed

text \<open>
  The survival scan after \<open>n\<close> days: the cumulative net outflow, and either no day so far
  exceeded the stock or \<open>survival\<close> holds the first day that did.
\<close>

lemma scan_fold:
  "fold (scan_step inflow outflow hq) [0..<n] (0, 0, None) = (cum, peak, surv) \<Longrightarrow>
     cum = (\<Sum>i<n. outflow ! i - inflow ! i)
     \<and> (case surv of
          None \<Rightarrow> (\<forall>m<n. (\<Sum>i<Suc m. outflow ! i - inflow ! i) \<le> hq)
        | Some s \<Rightarrow> (\<exists>m<n. s = int m + 1 \<and> hq < (\<Sum>i<Suc m. outflow ! i - inflow ! i)
                       \<and> (\<forall>j<m. (\<Sum>i<Suc j. outflow ! i - inflow ! i) \<le> hq)))"
proof (induction n arbitrary: cum peak surv)
  case 0
  then show ?case by simp
next
  case (Suc n)
  obtain c p sv where prev: "fold (scan_step inflow outflow hq) [0..<n] (0, 0, None) = (c, p, sv)"
    by (cases "fold (scan_step inflow outflow hq) [0..<n] (0, 0, None)") auto
  note ih = Suc.IH[OF prev]
  have step: "scan_step inflow outflow hq n (c, p, sv) = (cum, peak, surv)"
    using Suc.prems prev by simp
  have c: "c = (\<Sum>i<n. outflow ! i - inflow ! i)"
    using ih by simp
  have cum: "cum = (\<Sum>i<Suc n. outflow ! i - inflow ! i)"
    using step c by (simp add: scan_step_def Let_def)
  show ?case
  proof (cases sv)
    case (Some s0)
    then have "surv = Some s0"
      using step by (simp add: scan_step_def Let_def)
    moreover from ih Some obtain m where "m < n" "s0 = int m + 1"
      "hq < (\<Sum>i<Suc m. outflow ! i - inflow ! i)"
      "\<forall>j<m. (\<Sum>i<Suc j. outflow ! i - inflow ! i) \<le> hq"
      by auto
    ultimately show ?thesis
      using cum by (auto intro!: exI[where x = m])
  next
    case None
    with ih have below: "\<forall>m<n. (\<Sum>i<Suc m. outflow ! i - inflow ! i) \<le> hq"
      by simp
    show ?thesis
    proof (cases "hq < cum")
      case True
      then have "surv = Some (int n + 1)"
        using step None by (auto simp: scan_step_def Let_def)
      then show ?thesis
        using cum True below by (auto intro!: exI[where x = n])
    next
      case False
      then have "surv = None"
        using step None by (auto simp: scan_step_def Let_def)
      moreover have "\<forall>m<Suc n. (\<Sum>i<Suc m. outflow ! i - inflow ! i) \<le> hq"
        using below False cum by (auto simp: less_Suc_eq)
      ultimately show ?thesis
        using cum by simp
    qed
  qed
qed

lemma cum_series:
  "m \<le> nat h \<Longrightarrow>
     (\<Sum>i<m. map (get_out detail) (horizon_dates a h) ! i
              - map (get_in detail) (horizon_dates a h) ! i)
       = cum_net_outflow detail a (int m)"
proof (induction m)
  case 0
  show ?case by (simp add: cum_net_outflow_def)
next
  case (Suc m)
  have "{1..int (Suc m)} = insert (int m + 1) {1..int m}"
    by auto
  then have "cum_net_outflow detail a (int (Suc m))
               = cum_net_outflow detail a (int m)
                 + (get_out detail (day_after a (int m + 1))
                    - get_in detail (day_after a (int m + 1)))"
    by (simp add: cum_net_outflow_def)
  then show ?case
    using Suc by (simp add: length_horizon_dates nth_horizon_dates)
qed

text \<open>
  C6 (as amended). When the cumulative net outflow exceeds the HQLA stock on some day of
  \<open>1..horizon\<close>, \<open>survival_days\<close> is the first such day; when it never does,
  \<open>survival_days\<close> is the horizon; and for a horizon of at least one day it lies in
  \<open>[1, horizon]\<close>.
\<close>

theorem survival_days_first_exceedance:
  assumes "s = survival_days (compute_kpis_from_daily_detail detail a hq h)"
  shows "((\<exists>k\<in>{1..h}. hq < cum_net_outflow detail a k) \<longrightarrow>
            s \<in> {1..h} \<and> hq < cum_net_outflow detail a s
            \<and> (\<forall>j\<in>{1..<s}. cum_net_outflow detail a j \<le> hq))
       \<and> ((\<forall>k\<in>{1..h}. cum_net_outflow detail a k \<le> hq) \<longrightarrow> s = h)
       \<and> (1 \<le> h \<longrightarrow> 1 \<le> s \<and> s \<le> h)"
proof -
  let ?inflow = "map (get_in detail) (horizon_dates a h)"
  let ?outflow = "map (get_out detail) (horizon_dates a h)"
  obtain cum peak surv where
    scan: "fold (scan_step ?inflow ?outflow hq) [0..<nat h] (0, 0, None) = (cum, peak, surv)"
    by (cases "fold (scan_step ?inflow ?outflow hq) [0..<nat h] (0, 0, None)") auto
  have s: "s = (case surv of None \<Rightarrow> h | Some x \<Rightarrow> x)"
    using assms scan
    by (simp add: compute_kpis_from_daily_detail_def Let_def length_horizon_dates)
  note inv = scan_fold[OF scan]
  have link: "(\<Sum>i<Suc m. ?outflow ! i - ?inflow ! i) = cum_net_outflow detail a (int m + 1)"
    if "m < nat h" for m
    using cum_series[of "Suc m" h detail a] that by (simp add: add.commute)
  show ?thesis
  proof (cases surv)
    case None
    have below: "cum_net_outflow detail a k \<le> hq" if "k \<in> {1..h}" for k
    proof -
      from that have m: "nat (k - 1) < nat h" and k: "k = int (nat (k - 1)) + 1"
        by auto
      from inv None m have "(\<Sum>i<Suc (nat (k - 1)). ?outflow ! i - ?inflow ! i) \<le> hq"
        by simp
      then show ?thesis
        using link[OF m] k by simp
    qed
    from None s have sh: "s = h" by simp
    show ?thesis
    proof (intro conjI impI)
      assume "\<exists>k\<in>{1..h}. hq < cum_net_outflow detail a k"
      then obtain k where "k \<in> {1..h}" and "hq < cum_net_outflow detail a k"
        by blast
      with below[of k] have False by simp
      then show "s \<in> {1..h}" and "hq < cum_net_outflow detail a s"
        and "\<forall>j\<in>{1..<s}. cum_net_outflow detail a j \<le> hq"
        by blast+
    next
      show "s = h" by (rule sh)
    next
      assume "1 \<le> h"
      then show "1 \<le> s" and "s \<le> h" using sh by simp_all
    qed
  next
    case (Some s0)
    with inv obtain m where m: "m < nat h" and s0: "s0 = int m + 1"
      and above: "hq < (\<Sum>i<Suc m. ?outflow ! i - ?inflow ! i)"
      and before: "\<forall>j<m. (\<Sum>i<Suc j. ?outflow ! i - ?inflow ! i) \<le> hq"
      by auto
    from Some s s0 have sm: "s = int m + 1" by simp
    have range: "s \<in> {1..h}"
      using m sm by auto
    have exceed: "hq < cum_net_outflow detail a s"
      using above link[OF m] sm by simp
    have first: "cum_net_outflow detail a j \<le> hq" if "j \<in> {1..<s}" for j
    proof -
      from that sm have j: "nat (j - 1) < m" and jj: "j = int (nat (j - 1)) + 1"
        by auto
      from j m have jh: "nat (j - 1) < nat h" by (rule less_trans)
      from before j have "(\<Sum>i<Suc (nat (j - 1)). ?outflow ! i - ?inflow ! i) \<le> hq"
        by blast
      then have "cum_net_outflow detail a (int (nat (j - 1)) + 1) \<le> hq"
        by (simp only: link[OF jh])
      then show ?thesis
        using jj by simp
    qed
    show ?thesis
    proof (intro conjI impI)
      show "s \<in> {1..h}" by (rule range)
      show "hq < cum_net_outflow detail a s" by (rule exceed)
      show "\<forall>j\<in>{1..<s}. cum_net_outflow detail a j \<le> hq"
        using first by blast
    next
      assume "\<forall>k\<in>{1..h}. cum_net_outflow detail a k \<le> hq"
      with range have "cum_net_outflow detail a s \<le> hq" by blast
      with exceed show "s = h" by simp
    next
      show "1 \<le> s" and "s \<le> h" using range by simp_all
    qed
  qed
qed

theorem survival_days_first_exceedance_witness:
  "5 < cum_net_outflow
         [1 \<mapsto> \<lparr>io_in = 0, io_out = 4\<rparr>, 2 \<mapsto> \<lparr>io_in = 0, io_out = 4\<rparr>,
          3 \<mapsto> \<lparr>io_in = 0, io_out = 4\<rparr>] 0 2
   \<and> survival_days
        (compute_kpis_from_daily_detail
           [1 \<mapsto> \<lparr>io_in = 0, io_out = 4\<rparr>, 2 \<mapsto> \<lparr>io_in = 0, io_out = 4\<rparr>,
            3 \<mapsto> \<lparr>io_in = 0, io_out = 4\<rparr>] 0 5 3) = 2"
proof -
  let ?D = "[(1::int) \<mapsto> \<lparr>io_in = 0, io_out = 4\<rparr>, 2 \<mapsto> \<lparr>io_in = 0, io_out = 4\<rparr>,
             3 \<mapsto> \<lparr>io_in = 0, io_out = 4\<rparr>]"
  let ?s = "survival_days (compute_kpis_from_daily_detail ?D 0 5 3)"
  have one: "{1..(1::int)} = {1}" and two: "{1..(2::int)} = {1, 2}"
    by auto
  have c1: "cum_net_outflow ?D 0 1 = 4"
    by (simp add: cum_net_outflow_def day_after_zero get_out_def get_in_def one)
  have c2: "cum_net_outflow ?D 0 2 = 8"
    by (simp add: cum_net_outflow_def day_after_zero get_out_def get_in_def two)
  have ex: "\<exists>k\<in>{1..3}. 5 < cum_net_outflow ?D 0 k"
    by (rule bexI[where x = 2]) (simp_all add: c2)
  from survival_days_first_exceedance[where detail = ?D and a = 0 and hq = 5 and h = 3, OF refl] ex
  have range: "?s \<in> {1..3}" and exceed: "5 < cum_net_outflow ?D 0 ?s"
    and first: "\<forall>j\<in>{1..<?s}. cum_net_outflow ?D 0 j \<le> 5"
    by blast+
  have "?s \<noteq> 1"
    using exceed c1 by auto
  moreover have "?s \<noteq> 3"
  proof
    assume "?s = 3"
    with first have "cum_net_outflow ?D 0 2 \<le> 5" by simp
    with c2 show False by simp
  qed
  ultimately have "?s = 2"
    using range by auto
  with c2 show ?thesis by simp
qed

text \<open>
  With a horizon of one day and an outflow of 10 against a stock of 5, \<open>survival_days\<close>
  is the horizon although the cumulative outflow has exceeded the stock; with a horizon of
  zero days \<open>survival_days\<close> is \<open>0\<close>.
\<close>

theorem survival_days_horizon_counterexample:
  "survival_days
     (compute_kpis_from_daily_detail [1 \<mapsto> \<lparr>io_in = 0, io_out = 10\<rparr>] 0 5 1) = 1
   \<and> 5 < cum_net_outflow [1 \<mapsto> \<lparr>io_in = 0, io_out = 10\<rparr>] 0 1
   \<and> survival_days (compute_kpis_from_daily_detail Map.empty 0 5 0) = 0"
proof -
  have one: "{1..(1::int)} = {1}"
    by auto
  have d1: "date_of (plus_days 0 1) = 1"
    by (simp add: date_of_def plus_days_def day_us_def)
  have "survival_days
     (compute_kpis_from_daily_detail [1 \<mapsto> \<lparr>io_in = 0, io_out = 10\<rparr>] 0 5 1) = 1"
    by (simp add: compute_kpis_from_daily_detail_def horizon_dates_def Let_def d1
        scan_step_def get_in_def get_out_def)
  moreover have "5 < cum_net_outflow [1 \<mapsto> \<lparr>io_in = 0, io_out = 10\<rparr>] 0 1"
    by (simp add: cum_net_outflow_def day_after_zero get_out_def get_in_def one)
  moreover have "survival_days (compute_kpis_from_daily_detail Map.empty 0 5 0) = 0"
    by (simp add: compute_kpis_from_daily_detail_def horizon_dates_def Let_def)
  ultimately show ?thesis by blast
qed

end
